theory Spec2Isabelle
  imports Main "HOL-Library.AList"
begin

section \<open>The collections of the platform\<close>

text \<open>
  A \<^verbatim>\<open>Range\<close> is an object compared by reference: it is modelled by its identity.
\<close>

type_synonym Range = nat

text \<open>
  A JavaScript \<^verbatim>\<open>Map\<close>, as ECMAScript specifies it: the list of its entries in
  insertion order, where \<^verbatim>\<open>delete\<close> empties an entry in place (\<open>None\<close>) instead of
  shortening the list, so that an iterator that is walking the map keeps its position.
  \<^verbatim>\<open>set\<close> overwrites the value of a key that is present, in place, and appends a
  new entry otherwise.
\<close>

type_synonym ('k, 'v) jsmap = "('k \<times> 'v) option list"

definition jsmap_entries :: "('k, 'v) jsmap \<Rightarrow> ('k \<times> 'v) list" where
  "jsmap_entries m = List.map_filter id m"

definition jsmap_keys :: "('k, 'v) jsmap \<Rightarrow> 'k list" where
  "jsmap_keys m = map fst (jsmap_entries m)"

definition jsmap_get :: "('k, 'v) jsmap \<Rightarrow> 'k \<Rightarrow> 'v option" where
  "jsmap_get m k = map_of (jsmap_entries m) k"

definition jsmap_overwrite :: "'k \<Rightarrow> 'v \<Rightarrow> ('k, 'v) jsmap \<Rightarrow> ('k, 'v) jsmap" where
  "jsmap_overwrite k v m =
     map (\<lambda>e. case e of None \<Rightarrow> None
                | Some (k', v') \<Rightarrow> if k' = k then Some (k, v) else Some (k', v')) m"

definition jsmap_set :: "'k \<Rightarrow> 'v \<Rightarrow> ('k, 'v) jsmap \<Rightarrow> ('k, 'v) jsmap" where
  "jsmap_set k v m =
     (if k \<in> set (jsmap_keys m) then jsmap_overwrite k v m else m @ [Some (k, v)])"

definition jsmap_delete :: "'k \<Rightarrow> ('k, 'v) jsmap \<Rightarrow> ('k, 'v) jsmap" where
  "jsmap_delete k m =
     map (\<lambda>e. case e of None \<Rightarrow> None
                | Some (k', v') \<Rightarrow> if k' = k then None else Some (k', v')) m"

text \<open>
  A JavaScript \<^verbatim>\<open>Set\<close> (and the set-like \<^verbatim>\<open>Highlight\<close>): its elements in insertion
  order. No set is changed while it is iterated, so removal may shorten the list.
  \<^verbatim>\<open>has\<close> is membership in the list.
\<close>

definition jsset_add :: "'a \<Rightarrow> 'a list \<Rightarrow> 'a list" where
  "jsset_add x s = (if x \<in> set s then s else s @ [x])"

definition jsset_delete :: "'a \<Rightarrow> 'a list \<Rightarrow> 'a list" where
  "jsset_delete x s = removeAll x s"

text \<open>
  A \<^verbatim>\<open>Highlight\<close> of the platform: its ranges and its priority, an integer (the
  attribute is a \<^verbatim>\<open>long\<close>; a call with a priority that is not an integer is outside
  the model). \<^verbatim>\<open>CSS.highlights\<close> maps names to highlights; it is held by value, one
  highlight per name (the same \<^verbatim>\<open>Highlight\<close> object registered under two names is
  outside the model). \<^verbatim>\<open>console.warn\<close> appends to the console.
\<close>

record Highlight =
  members :: "Range list"
  priority :: int

datatype warning =
    PriorityMismatch string int int
  | DeletedElsewhere
  | OwnedDeletedElsewhere string

record world =
  css_highlights :: "(string \<times> Highlight) list"
  console :: "warning list"

section \<open>The registry\<close>

record LocalHighlightRegistry =
  ranges :: "(string, Range list) jsmap"

definition new_registry :: LocalHighlightRegistry where
  "new_registry = \<lparr>ranges = []\<rparr>"

datatype error = RangeAlreadyRegistered

text \<open>
  \<^verbatim>\<open>add\<close>. The set of a new name is stored in \<^verbatim>\<open>#ranges\<close> before
  \<^verbatim>\<open>CSS.highlights\<close> is read, and it stays there when the call throws.
\<close>

definition add ::
  "string \<Rightarrow> Range \<Rightarrow> int \<Rightarrow> LocalHighlightRegistry \<times> world
     \<Rightarrow> (error + bool) \<times> LocalHighlightRegistry \<times> world" where
  "add name rng prio st =
     (case st of (reg, w) \<Rightarrow>
        let found = jsmap_get (ranges reg) name;
            s = (case found of None \<Rightarrow> [] | Some s0 \<Rightarrow> s0);
            reg1 = (case found of
                      None \<Rightarrow> reg\<lparr>ranges := jsmap_set name [] (ranges reg)\<rparr>
                    | Some s0 \<Rightarrow> reg)
        in if found \<noteq> None \<and> rng \<in> set s then (Inr False, reg, w)
           else
             (case map_of (css_highlights w) name of
                None \<Rightarrow>
                  let gh = \<lparr>members = [], priority = prio\<rparr>
                  in (Inr True,
                      reg1\<lparr>ranges := jsmap_set name (jsset_add rng s) (ranges reg1)\<rparr>,
                      w\<lparr>css_highlights :=
                          AList.update name (gh\<lparr>members := jsset_add rng (members gh)\<rparr>)
                            (css_highlights w)\<rparr>)
              | Some gh \<Rightarrow>
                  if rng \<in> set (members gh) then (Inl RangeAlreadyRegistered, reg1, w)
                  else
                    let w1 = (if priority gh \<noteq> prio
                              then w\<lparr>console :=
                                       console w @ [PriorityMismatch name (priority gh) prio]\<rparr>
                              else w)
                    in (Inr True,
                        reg1\<lparr>ranges := jsmap_set name (jsset_add rng s) (ranges reg1)\<rparr>,
                        w1\<lparr>css_highlights :=
                             AList.update name (gh\<lparr>members := jsset_add rng (members gh)\<rparr>)
                               (css_highlights w1)\<rparr>)))"

definition has :: "string \<Rightarrow> Range \<Rightarrow> LocalHighlightRegistry \<Rightarrow> bool" where
  "has name rng reg =
     (case jsmap_get (ranges reg) name of
        None \<Rightarrow> False
      | Some s \<Rightarrow> rng \<in> set s)"

definition delete ::
  "string \<Rightarrow> Range \<Rightarrow> LocalHighlightRegistry \<times> world
     \<Rightarrow> bool \<times> LocalHighlightRegistry \<times> world" where
  "delete name rng st =
     (case st of (reg, w) \<Rightarrow>
        (case jsmap_get (ranges reg) name of
           None \<Rightarrow> (False, reg, w)
         | Some s \<Rightarrow>
             if rng \<notin> set s then (False, reg, w)
             else
               let s' = jsset_delete rng s;
                   m1 = jsmap_set name s' (ranges reg);
                   m2 = (if length s' = 0 then jsmap_delete name m1 else m1);
                   w' = (case map_of (css_highlights w) name of
                           None \<Rightarrow> w\<lparr>console := console w @ [DeletedElsewhere]\<rparr>
                         | Some gh \<Rightarrow>
                             if rng \<notin> set (members gh)
                             then w\<lparr>console := console w @ [DeletedElsewhere]\<rparr>
                             else w\<lparr>css_highlights :=
                                      AList.update name
                                        (gh\<lparr>members := jsset_delete rng (members gh)\<rparr>)
                                        (css_highlights w)\<rparr>)
               in (True, reg\<lparr>ranges := m2\<rparr>, w')))"

text \<open>
  The loop of \<^verbatim>\<open>deleteAll\<close> over the ranges of the set: each turn assigns
  \<^verbatim>\<open>warn\<close> from the removal it has just made.
\<close>

fun deleteAll_loop :: "Range list \<Rightarrow> bool \<times> Highlight \<Rightarrow> bool \<times> Highlight" where
  "deleteAll_loop [] (warn, gh) = (warn, gh)"
| "deleteAll_loop (rng # rest) (warn, gh) =
     deleteAll_loop rest
       (\<not> (rng \<in> set (members gh)), gh\<lparr>members := jsset_delete rng (members gh)\<rparr>)"

definition deleteAll ::
  "string \<Rightarrow> LocalHighlightRegistry \<times> world \<Rightarrow> bool \<times> LocalHighlightRegistry \<times> world" where
  "deleteAll name st =
     (case st of (reg, w) \<Rightarrow>
        (case jsmap_get (ranges reg) name of
           None \<Rightarrow> (False, reg, w)
         | Some s \<Rightarrow>
             let (warn, w1) =
                   (case map_of (css_highlights w) name of
                      None \<Rightarrow> (True, w)
                    | Some gh \<Rightarrow>
                        (case deleteAll_loop s (False, gh) of
                           (warn', gh') \<Rightarrow>
                             (warn', w\<lparr>css_highlights :=
                                        AList.update name gh' (css_highlights w)\<rparr>)));
                 w2 = (if warn
                       then w1\<lparr>console := console w1 @ [OwnedDeletedElsewhere name]\<rparr>
                       else w1)
             in (True, reg\<lparr>ranges := jsmap_delete name (ranges reg)\<rparr>, w2)))"

text \<open>
  \<^verbatim>\<open>clear\<close> walks the live key iterator of \<^verbatim>\<open>#ranges\<close>: position \<open>i\<close> in the
  entries, read from the map as it is at each turn; an emptied entry is skipped.
\<close>

function clear_loop ::
  "nat \<Rightarrow> LocalHighlightRegistry \<times> world \<Rightarrow> LocalHighlightRegistry \<times> world" where
  "clear_loop i (reg, w) =
     (if i < length (ranges reg)
      then (case ranges reg ! i of
              None \<Rightarrow> clear_loop (Suc i) (reg, w)
            | Some (name, s) \<Rightarrow> clear_loop (Suc i) (snd (deleteAll name (reg, w))))
      else (reg, w))"
  by pat_completeness auto
termination
  by (relation "measure (\<lambda>(i, reg, w). length (ranges reg) - i)")
     (auto simp: deleteAll_def jsmap_delete_def Let_def split: option.splits prod.splits)

definition clear :: "LocalHighlightRegistry \<times> world \<Rightarrow> LocalHighlightRegistry \<times> world" where
  "clear st = clear_loop 0 st"

text \<open>
  The walk the specification describes: the names are read once, before the first
  \<^verbatim>\<open>deleteAll\<close>, and \<^verbatim>\<open>deleteAll\<close> is called for each of them in order.
\<close>

definition clear_snapshot ::
  "LocalHighlightRegistry \<times> world \<Rightarrow> LocalHighlightRegistry \<times> world" where
  "clear_snapshot st =
     fold (\<lambda>name st'. snd (deleteAll name st')) (jsmap_keys (ranges (fst st))) st"

section \<open>Calls and their outcomes\<close>

datatype call =
    Add string Range int
  | Has string Range
  | Delete string Range
  | DeleteAll string
  | Clear

datatype retval = Bool bool | Void

fun exec ::
  "call \<Rightarrow> LocalHighlightRegistry \<times> world
     \<Rightarrow> (error + retval) \<times> LocalHighlightRegistry \<times> world" where
  "exec (Add name rng prio) st =
     (case add name rng prio st of
        (Inl e, st') \<Rightarrow> (Inl e, st')
      | (Inr b, st') \<Rightarrow> (Inr (Bool b), st'))"
| "exec (Has name rng) st = (Inr (Bool (has name rng (fst st))), st)"
| "exec (Delete name rng) st = (case delete name rng st of (b, st') \<Rightarrow> (Inr (Bool b), st'))"
| "exec (DeleteAll name) st = (case deleteAll name st of (b, st') \<Rightarrow> (Inr (Bool b), st'))"
| "exec Clear st = (Inr Void, clear st)"

text \<open>
  The invariant of the ledger: every name that is a key of \<^verbatim>\<open>#ranges\<close> has a
  set that is not empty.
\<close>

definition ledger_inv :: "LocalHighlightRegistry \<Rightarrow> bool" where
  "ledger_inv reg = list_all (\<lambda>(name, s). s \<noteq> []) (jsmap_entries (ranges reg))"

text \<open>The ranges of the highlight that \<^verbatim>\<open>CSS.highlights\<close> holds for a name.\<close>

definition shared_ranges :: "string \<Rightarrow> world \<Rightarrow> Range list" where
  "shared_ranges name w =
     (case map_of (css_highlights w) name of None \<Rightarrow> [] | Some gh \<Rightarrow> members gh)"

text \<open>The ranges this registry owns under a name: none when the name is not a key.\<close>

definition owned :: "string \<Rightarrow> LocalHighlightRegistry \<Rightarrow> Range list" where
  "owned name reg = (case jsmap_get (ranges reg) name of None \<Rightarrow> [] | Some s \<Rightarrow> s)"

text \<open>
  Several registries over the one \<^verbatim>\<open>CSS.highlights\<close>: each instance \<open>i\<close> has its
  own private \<^verbatim>\<open>#ranges\<close>, and a call on \<open>i\<close> runs on the ledger of \<open>i\<close> and on
  the shared world.
\<close>

definition on_instance ::
  "'i \<Rightarrow> call \<Rightarrow> ('i \<Rightarrow> LocalHighlightRegistry) \<times> world
     \<Rightarrow> (error + retval) \<times> ('i \<Rightarrow> LocalHighlightRegistry) \<times> world" where
  "on_instance i c sys =
     (case sys of (regs, w) \<Rightarrow>
        (case exec c (regs i, w) of (res, reg', w') \<Rightarrow> (res, regs(i := reg'), w')))"

section \<open>The maps and sets\<close>

lemma jsmap_entries_simps [simp]:
  "jsmap_entries [] = []"
  "jsmap_entries (None # m) = jsmap_entries m"
  "jsmap_entries (Some e # m) = e # jsmap_entries m"
  "jsmap_entries (m @ m') = jsmap_entries m @ jsmap_entries m'"
  by (simp_all add: jsmap_entries_def List.map_filter_def)

lemma jsmap_keys_simps [simp]:
  "jsmap_keys [] = []"
  "jsmap_keys (None # m) = jsmap_keys m"
  "jsmap_keys (Some (k, v) # m) = k # jsmap_keys m"
  by (simp_all add: jsmap_keys_def)

lemma jsmap_get_None_iff: "jsmap_get m k = None \<longleftrightarrow> k \<notin> set (jsmap_keys m)"
  by (simp add: jsmap_get_def jsmap_keys_def map_of_eq_None_iff)

lemma map_of_overwrite:
  "map_of (jsmap_entries (jsmap_overwrite k v m)) k'' =
   (if k'' = k \<and> k \<in> set (jsmap_keys m) then Some v else map_of (jsmap_entries m) k'')"
  unfolding jsmap_overwrite_def
  by (induction m) (auto split: option.splits)

lemma jsmap_keys_overwrite: "jsmap_keys (jsmap_overwrite k v m) = jsmap_keys m"
  unfolding jsmap_overwrite_def
  by (induction m) (auto split: option.splits)

lemma jsmap_overwrite_absent: "k \<notin> set (jsmap_keys m) \<Longrightarrow> jsmap_overwrite k v m = m"
  unfolding jsmap_overwrite_def
  by (induction m) (auto split: option.splits)

lemma jsmap_overwrite_twice: "jsmap_overwrite k v (jsmap_overwrite k v0 m) = jsmap_overwrite k v m"
  unfolding jsmap_overwrite_def
  by (induction m) (auto split: option.splits)

lemma jsmap_set_twice: "jsmap_set k v (jsmap_set k v0 m) = jsmap_set k v m"
proof (cases "k \<in> set (jsmap_keys m)")
  case True
  then show ?thesis
    by (simp add: jsmap_set_def jsmap_keys_overwrite jsmap_overwrite_twice)
next
  case False
  then have "jsmap_overwrite k v (m @ [Some (k, v0)]) = m @ [Some (k, v)]"
    using jsmap_overwrite_absent [of k m v] by (simp add: jsmap_overwrite_def)
  with False show ?thesis
    by (simp add: jsmap_set_def jsmap_keys_def)
qed

lemma jsmap_get_set: "jsmap_get (jsmap_set k v m) k' = (if k' = k then Some v else jsmap_get m k')"
proof (cases "k \<in> set (jsmap_keys m)")
  case True
  then show ?thesis
    by (simp add: jsmap_set_def jsmap_get_def map_of_overwrite)
next
  case False
  then have "map_of (jsmap_entries m) k = None"
    by (simp add: jsmap_keys_def map_of_eq_None_iff)
  with False show ?thesis
    by (auto simp: jsmap_set_def jsmap_get_def map_add_def split: option.splits)
qed

lemma jsmap_get_delete:
  "jsmap_get (jsmap_delete k m) k' = (if k' = k then None else jsmap_get m k')"
  unfolding jsmap_delete_def jsmap_get_def
  by (induction m) (auto split: option.splits)

lemma jsmap_keys_delete: "jsmap_keys (jsmap_delete k m) = removeAll k (jsmap_keys m)"
  unfolding jsmap_delete_def
  by (induction m) (auto split: option.splits)

lemma list_all_overwrite:
  "list_all P (jsmap_entries m) \<Longrightarrow> P (k, v) \<Longrightarrow>
   list_all P (jsmap_entries (jsmap_overwrite k v m))"
  unfolding jsmap_overwrite_def
  by (induction m) (auto split: option.splits)

lemma list_all_jsmap_set:
  "list_all P (jsmap_entries m) \<Longrightarrow> P (k, v) \<Longrightarrow> list_all P (jsmap_entries (jsmap_set k v m))"
  by (simp add: jsmap_set_def list_all_overwrite)

lemma list_all_jsmap_delete:
  "list_all P (jsmap_entries m) \<Longrightarrow> list_all P (jsmap_entries (jsmap_delete k m))"
  unfolding jsmap_delete_def
  by (induction m) (auto split: option.splits)

lemma list_all_jsmap_get:
  "list_all P (jsmap_entries m) \<Longrightarrow> jsmap_get m k = Some v \<Longrightarrow> P (k, v)"
  unfolding jsmap_get_def
  by (auto simp: list_all_iff dest: map_of_SomeD)

lemma jsmap_keys_iff: "k \<in> set (jsmap_keys m) \<longleftrightarrow> jsmap_get m k \<noteq> None"
  by (simp add: jsmap_get_None_iff)

lemma jsmap_delete_absent: "k \<notin> set (jsmap_keys m) \<Longrightarrow> jsmap_delete k m = m"
  unfolding jsmap_delete_def
  by (induction m) (auto split: option.splits)

lemma jsmap_keys_drop_delete:
  "jsmap_keys (drop i (jsmap_delete name m)) = removeAll name (jsmap_keys (drop i m))"
proof -
  have "drop i (jsmap_delete name m) = jsmap_delete name (drop i m)"
    by (simp add: jsmap_delete_def drop_map)
  then show ?thesis
    by (simp add: jsmap_keys_delete)
qed

lemma jsmap_entries_delete_set:
  "jsmap_entries (jsmap_delete k (jsmap_set k v m)) = jsmap_entries (jsmap_delete k m)"
proof -
  have "jsmap_entries (jsmap_delete k (jsmap_overwrite k v m)) = jsmap_entries (jsmap_delete k m)"
    unfolding jsmap_delete_def jsmap_overwrite_def
    by (induction m) (auto split: option.splits)
  then show ?thesis
    by (simp add: jsmap_set_def jsmap_delete_def)
qed

section \<open>Facts about the operations\<close>

lemma has_owned: "has name rng reg \<longleftrightarrow> rng \<in> set (owned name reg)"
  by (simp add: has_def owned_def split: option.splits)

lemma shared_ranges_update:
  "shared_ranges n (w\<lparr>css_highlights := AList.update name gh (css_highlights w)\<rparr>) =
     (if n = name then members gh else shared_ranges n w)"
  by (simp add: shared_ranges_def update_conv')

lemma shared_ranges_console [simp]:
  "shared_ranges n (w\<lparr>console := c\<rparr>) = shared_ranges n w"
  by (simp add: shared_ranges_def)

lemma add_raises_iff:
  "(\<exists>e. fst (add name rng prio (reg, w)) = Inl e) \<longleftrightarrow>
     \<not> has name rng reg \<and> rng \<in> set (shared_ranges name w)"
  by (auto simp: add_def has_def shared_ranges_def Let_def split: option.splits if_splits)

lemma delete_not_owned:
  "\<not> has name rng reg \<Longrightarrow> delete name rng (reg, w) = (False, reg, w)"
  by (simp add: delete_def has_def split: option.splits)

lemma delete_returns: "fst (delete name rng (reg, w)) = has name rng reg"
  by (simp add: delete_def has_def Let_def split: option.splits)

lemma delete_ledger:
  assumes "has name rng reg"
  shows "jsmap_get (ranges (fst (snd (delete name rng (reg, w))))) n =
           (if n = name
            then (if removeAll rng (owned name reg) = [] then None
                  else Some (removeAll rng (owned name reg)))
            else jsmap_get (ranges reg) n)"
  using assms
  by (auto simp: delete_def has_def owned_def Let_def jsset_delete_def jsmap_get_set
      jsmap_get_delete split: option.splits)

lemma delete_not_has: "\<not> has name rng (fst (snd (delete name rng (reg, w))))"
proof (cases "has name rng reg")
  case True
  show ?thesis
    unfolding has_def delete_ledger [OF True] by simp
next
  case False
  then show ?thesis by (simp add: delete_not_owned)
qed

lemma add_returns_True:
  assumes "add name rng prio (reg, w) = (Inr True, reg', w')"
  shows "\<not> has name rng reg \<and> rng \<notin> set (shared_ranges name w) \<and>
         owned name reg' = owned name reg @ [rng] \<and>
         (\<forall>n. n \<noteq> name \<longrightarrow> jsmap_get (ranges reg') n = jsmap_get (ranges reg) n) \<and>
         shared_ranges name w' = shared_ranges name w @ [rng]"
  using assms
  by (auto simp: add_def has_def owned_def shared_ranges_def Let_def jsset_add_def
      jsmap_get_set update_conv' split: option.splits if_splits)

lemma add_fresh_returns_True:
  assumes "\<not> has name rng reg" "rng \<notin> set (shared_ranges name w)"
  shows "fst (add name rng prio (reg, w)) = Inr True"
  using assms
  by (auto simp: add_def has_def shared_ranges_def Let_def split: option.splits if_splits)

lemma add_owned_noop:
  assumes "has name rng reg"
  shows "add name rng prio (reg, w) = (Inr False, reg, w)"
  using assms
  by (auto simp: add_def has_def Let_def split: option.splits)

lemma deleteAll_absent:
  "name \<notin> set (jsmap_keys (ranges reg)) \<Longrightarrow> deleteAll name (reg, w) = (False, reg, w)"
  by (simp add: deleteAll_def jsmap_keys_iff)

lemma deleteAll_returns: "fst (deleteAll name (reg, w)) \<longleftrightarrow> name \<in> set (jsmap_keys (ranges reg))"
  by (auto simp: deleteAll_def jsmap_keys_iff Let_def split: option.splits prod.splits)

lemma deleteAll_ledger:
  "ranges (fst (snd (deleteAll name (reg, w)))) = jsmap_delete name (ranges reg)"
proof (cases "jsmap_get (ranges reg) name")
  case None
  then have "jsmap_delete name (ranges reg) = ranges reg"
    by (simp add: jsmap_delete_absent jsmap_get_None_iff)
  with None show ?thesis by (simp add: deleteAll_def)
next
  case (Some s)
  then show ?thesis
    by (simp add: deleteAll_def Let_def split: prod.splits)
qed

lemma ledger_inv_key_owned:
  "ledger_inv reg \<Longrightarrow> name \<in> set (jsmap_keys (ranges reg)) \<longleftrightarrow> owned name reg \<noteq> []"
  using list_all_jsmap_get [of "\<lambda>(name, s). s \<noteq> []" "ranges reg" name]
  by (auto simp: ledger_inv_def owned_def jsmap_keys_iff split: option.splits)

lemma deleteAll_returns_owned:
  "ledger_inv reg \<Longrightarrow> fst (deleteAll name (reg, w)) \<longleftrightarrow> owned name reg \<noteq> []"
  by (simp add: deleteAll_returns ledger_inv_key_owned)

lemma deleteAll_step_keys:
  "jsmap_keys (ranges (fst (snd (deleteAll name st)))) =
     removeAll name (jsmap_keys (ranges (fst st)))"
  by (cases st) (simp add: deleteAll_ledger jsmap_keys_delete)

lemma deleteAll_step_absent:
  "name \<notin> set (jsmap_keys (ranges (fst st))) \<Longrightarrow> snd (deleteAll name st) = st"
  by (cases st) (simp add: deleteAll_absent)

lemma fold_deleteAll_skip:
  "name \<notin> set (jsmap_keys (ranges (fst st))) \<Longrightarrow>
   fold (\<lambda>n st'. snd (deleteAll n st')) (removeAll name ks) st =
   fold (\<lambda>n st'. snd (deleteAll n st')) ks st"
proof (induction ks arbitrary: st)
  case Nil
  show ?case by simp
next
  case (Cons k ks)
  show ?case
  proof (cases "k = name")
    case True
    with Cons show ?thesis
      by (simp add: deleteAll_step_absent)
  next
    case False
    from Cons.prems have "name \<notin> set (jsmap_keys (ranges (fst (snd (deleteAll k st)))))"
      by (simp add: deleteAll_step_keys)
    from Cons.IH [OF this] False show ?thesis
      by simp
  qed
qed

lemma fold_deleteAll_keys:
  "jsmap_keys (ranges (fst (fold (\<lambda>n st'. snd (deleteAll n st')) ks st))) =
     filter (\<lambda>k. k \<notin> set ks) (jsmap_keys (ranges (fst st)))"
proof (induction ks arbitrary: st)
  case Nil
  show ?case by simp
next
  case (Cons k ks)
  have "filter (\<lambda>x. x \<notin> set ks) (removeAll k xs) =
        filter (\<lambda>x. x \<notin> set (k # ks)) xs" for xs
    by (induction xs) auto
  then show ?case
    by (simp add: Cons.IH deleteAll_step_keys)
qed

lemma clear_loop_fold:
  "clear_loop i st =
     fold (\<lambda>n st'. snd (deleteAll n st')) (jsmap_keys (drop i (ranges (fst st)))) st"
proof (induction i st rule: clear_loop.induct)
  case (1 i reg w)
  show ?case
  proof (cases "i < length (ranges reg)")
    case False
    then show ?thesis by simp
  next
    case True
    then have d: "drop i (ranges reg) = ranges reg ! i # drop (Suc i) (ranges reg)"
      by (simp add: Cons_nth_drop_Suc)
    show ?thesis
    proof (cases "ranges reg ! i")
      case None
      with True d "1.IH"(1) show ?thesis
        by simp
    next
      case (Some e)
      obtain name s where e: "e = (name, s)" by (cases e)
      let ?st' = "snd (deleteAll name (reg, w))"
      have absent: "name \<notin> set (jsmap_keys (ranges (fst ?st')))"
        by (simp add: deleteAll_step_keys)
      have "clear_loop i (reg, w) = clear_loop (Suc i) ?st'"
        using True Some e by simp
      also have "\<dots> = fold (\<lambda>n st'. snd (deleteAll n st'))
                         (jsmap_keys (drop (Suc i) (ranges (fst ?st')))) ?st'"
        using "1.IH"(2) [OF True Some [unfolded e]] by simp
      also have "jsmap_keys (drop (Suc i) (ranges (fst ?st'))) =
                 removeAll name (jsmap_keys (drop (Suc i) (ranges reg)))"
        by (simp add: deleteAll_ledger jsmap_keys_drop_delete)
      also have "fold (\<lambda>n st'. snd (deleteAll n st'))
                   (removeAll name (jsmap_keys (drop (Suc i) (ranges reg)))) ?st' =
                 fold (\<lambda>n st'. snd (deleteAll n st'))
                   (jsmap_keys (drop (Suc i) (ranges reg))) ?st'"
        by (rule fold_deleteAll_skip [OF absent])
      finally show ?thesis
        using d Some e by simp
    qed
  qed
qed

lemma deleteAll_loop_members:
  "members (snd (deleteAll_loop s (b, gh))) = filter (\<lambda>r. r \<notin> set s) (members gh)"
proof (induction s arbitrary: b gh)
  case Nil
  show ?case by simp
next
  case (Cons r s)
  have "filter (\<lambda>x. x \<notin> set s) (removeAll r xs) =
        filter (\<lambda>x. x \<notin> set (r # s)) xs" for xs :: "Range list"
    by (induction xs) auto
  then show ?case
    by (simp add: Cons.IH jsset_delete_def)
qed

lemma deleteAll_shared:
  "shared_ranges n (snd (snd (deleteAll name (reg, w)))) =
     (if n = name then filter (\<lambda>r. r \<notin> set (owned name reg)) (shared_ranges name w)
      else shared_ranges n w)"
proof (cases "jsmap_get (ranges reg) name")
  case None
  then show ?thesis
    by (simp add: deleteAll_def owned_def)
next
  case (Some s)
  show ?thesis
  proof (cases "map_of (css_highlights w) name")
    case None
    with Some show ?thesis
      by (simp add: deleteAll_def owned_def shared_ranges_def)
  next
    case gh: (Some gh)
    obtain b gh' where l: "deleteAll_loop s (False, gh) = (b, gh')"
      by (cases "deleteAll_loop s (False, gh)")
    from deleteAll_loop_members [of s False gh] l
    have m: "members gh' = filter (\<lambda>r. r \<notin> set s) (members gh)"
      by simp
    from Some gh l m show ?thesis
      by (simp add: deleteAll_def owned_def shared_ranges_def update_conv')
  qed
qed

lemma on_instance_other:
  "a \<noteq> b \<Longrightarrow> fst (snd (on_instance b c (regs, w))) a = regs a"
  by (simp add: on_instance_def split: prod.splits)

lemma add_returns_ledger:
  assumes "add name rng prio (reg, w) = (Inr True, reg', w')"
  shows "ranges reg' = jsmap_set name (owned name reg @ [rng]) (ranges reg)"
  using assms
  by (auto simp: add_def Let_def owned_def jsset_add_def jsmap_set_twice
      split: option.splits if_splits)

lemma add_ledger_inv:
  assumes "ledger_inv reg" and "add name rng prio (reg, w) = (Inr b, reg', w')"
  shows "ledger_inv reg'"
proof (cases b)
  case True
  with assms(2) have "ranges reg' = jsmap_set name (owned name reg @ [rng]) (ranges reg)"
    by (simp add: add_returns_ledger)
  with assms(1) show ?thesis
    by (simp add: ledger_inv_def list_all_jsmap_set)
next
  case False
  with assms(2) have "reg' = reg"
    by (auto simp: add_def Let_def split: option.splits if_splits)
  with assms(1) show ?thesis by simp
qed

lemma delete_ledger_inv:
  assumes "ledger_inv reg"
  shows "ledger_inv (fst (snd (delete name rng (reg, w))))"
  using assms
  by (auto simp: delete_def Let_def ledger_inv_def jsmap_entries_delete_set
      intro!: list_all_jsmap_set list_all_jsmap_delete split: option.splits)

lemma deleteAll_ledger_inv:
  assumes "ledger_inv (fst st)"
  shows "ledger_inv (fst (snd (deleteAll name st)))"
  using assms
  by (cases st) (simp add: ledger_inv_def deleteAll_ledger list_all_jsmap_delete)

lemma clear_ledger_inv: "ledger_inv (fst (clear st))"
proof -
  have "jsmap_keys (ranges (fst (clear st))) = []"
    by (cases st) (simp add: clear_def clear_loop_fold fold_deleteAll_keys)
  then show ?thesis
    by (simp add: ledger_inv_def jsmap_keys_def)
qed

lemma exec_returns_ledger_inv:
  assumes "ledger_inv reg" and "exec c (reg, w) = (Inr v, reg', w')"
  shows "ledger_inv reg'"
proof (cases c)
  case (Add name rng prio)
  with assms show ?thesis
    by (auto split: prod.splits sum.splits dest: add_ledger_inv)
next
  case (Has name rng)
  with assms show ?thesis by simp
next
  case (Delete name rng)
  with assms delete_ledger_inv [of reg name rng w] show ?thesis
    by (auto split: prod.splits)
next
  case (DeleteAll name)
  with assms deleteAll_ledger_inv [of "(reg, w)" name] show ?thesis
    by (auto split: prod.splits)
next
  case Clear
  with assms clear_ledger_inv [of "(reg, w)"] show ?thesis
    by auto
qed

lemma deleteAll_loop_warn:
  "s \<noteq> [] \<Longrightarrow>
   fst (deleteAll_loop s (b, gh)) \<longleftrightarrow>
     last s \<notin> set (members gh) \<or> last s \<in> set (butlast s)"
proof (induction s arbitrary: b gh)
  case Nil
  then show ?case by simp
next
  case (Cons r s)
  show ?case
  proof (cases "s = []")
    case True
    then show ?thesis by simp
  next
    case False
    from Cons.IH [OF False] False show ?thesis
      by (auto simp: jsset_delete_def)
  qed
qed

section \<open>The error of add\<close>

text \<open>
  C3. A call raises exactly when it is \<^verbatim>\<open>add(name, range, priority)\<close>, the registry
  does not own the range under the name, and \<^verbatim>\<open>CSS.highlights\<close> has a highlight for
  the name that contains the range. No other call raises, and neither a priority that
  differs nor a range or name that is not found makes a call raise.
\<close>

theorem raises_iff_collision:
  "(\<exists>e. fst (exec c (reg, w)) = Inl e) \<longleftrightarrow>
     (case c of
        Add name rng prio \<Rightarrow> \<not> has name rng reg \<and> rng \<in> set (shared_ranges name w)
      | _ \<Rightarrow> False)"
proof (cases c)
  case (Add name rng prio)
  have "(\<exists>e. fst (exec c (reg, w)) = Inl e) \<longleftrightarrow>
        (\<exists>e. fst (add name rng prio (reg, w)) = Inl e)"
    unfolding Add by (cases "add name rng prio (reg, w)") (auto split: sum.splits)
  then show ?thesis
    by (simp add: Add add_raises_iff)
qed (auto split: prod.splits)

text \<open>
  C10. When \<^verbatim>\<open>add\<close> raises, the shared world is the one it was called in: no
  highlight was created, no range inserted, no priority written and nothing warned; and
  \<^verbatim>\<open>CSS.highlights\<close> already had a highlight for the name.
\<close>

theorem add_raise_keeps_world:
  assumes "add name rng prio (reg, w) = (Inl e, reg', w')"
  shows "w' = w \<and> map_of (css_highlights w) name \<noteq> None"
  using assms
  by (auto simp: add_def Let_def split: option.splits if_splits)

theorem add_raise_keeps_world_witness:
  "add ''note'' 7 3
     (\<lparr>ranges = [Some (''note'', [4])]\<rparr>,
      \<lparr>css_highlights = [(''note'', \<lparr>members = [4, 7], priority = 0\<rparr>)], console = []\<rparr>) =
   (Inl RangeAlreadyRegistered,
    \<lparr>ranges = [Some (''note'', [4])]\<rparr>,
    \<lparr>css_highlights = [(''note'', \<lparr>members = [4, 7], priority = 0\<rparr>)], console = []\<rparr>) \<and>
   map_of
     (css_highlights
        \<lparr>css_highlights = [(''note'', \<lparr>members = [4, 7], priority = 0\<rparr>)], console = []\<rparr>)
     ''note'' \<noteq> None"
proof -
  have h: "add ''note'' 7 3
     (\<lparr>ranges = [Some (''note'', [4])]\<rparr>,
      \<lparr>css_highlights = [(''note'', \<lparr>members = [4, 7], priority = 0\<rparr>)], console = []\<rparr>) =
   (Inl RangeAlreadyRegistered,
    \<lparr>ranges = [Some (''note'', [4])]\<rparr>,
    \<lparr>css_highlights = [(''note'', \<lparr>members = [4, 7], priority = 0\<rparr>)], console = []\<rparr>)"
    by code_simp
  from add_raise_keeps_world [OF h] h show ?thesis
    by simp
qed

section \<open>add, has and delete\<close>

text \<open>
  C8. For every name and range: when \<^verbatim>\<open>add(name, range)\<close> returns \<^verbatim>\<open>true\<close>,
  \<^verbatim>\<open>has(name, range)\<close> is true in the registry it leaves; and after
  \<^verbatim>\<open>delete(name, range)\<close>, called then or in any later state,
  \<^verbatim>\<open>has(name, range)\<close> is false.
\<close>

theorem add_has_delete:
  "(add name rng prio (reg, w) = (Inr True, reg', w') \<longrightarrow>
      has name rng reg' \<and> \<not> has name rng (fst (snd (delete name rng (reg', w'))))) \<and>
   \<not> has name rng (fst (snd (delete name rng (reg2, w2))))"
proof (intro conjI impI)
  assume "add name rng prio (reg, w) = (Inr True, reg', w')"
  from add_returns_True [OF this] show "has name rng reg'"
    by (simp add: has_owned)
qed (rule delete_not_has)+

theorem add_has_delete_witness:
  "add ''mark'' 5 0 (new_registry, \<lparr>css_highlights = [], console = []\<rparr>) =
     (Inr True,
      \<lparr>ranges = [Some (''mark'', [5])]\<rparr>,
      \<lparr>css_highlights = [(''mark'', \<lparr>members = [5], priority = 0\<rparr>)], console = []\<rparr>) \<and>
   has ''mark'' 5 \<lparr>ranges = [Some (''mark'', [5])]\<rparr> \<and>
   \<not> has ''mark'' 5
      (fst (snd (delete ''mark'' 5
         (\<lparr>ranges = [Some (''mark'', [5])]\<rparr>,
          \<lparr>css_highlights = [(''mark'', \<lparr>members = [5], priority = 0\<rparr>)],
             console = []\<rparr>))))"
proof -
  have h: "add ''mark'' 5 0 (new_registry, \<lparr>css_highlights = [], console = []\<rparr>) =
     (Inr True,
      \<lparr>ranges = [Some (''mark'', [5])]\<rparr>,
      \<lparr>css_highlights = [(''mark'', \<lparr>members = [5], priority = 0\<rparr>)], console = []\<rparr>)"
    by code_simp
  from add_has_delete [where name = "''mark''" and rng = 5 and prio = 0
      and reg = new_registry and w = "\<lparr>css_highlights = [], console = []\<rparr>"
      and reg' = "\<lparr>ranges = [Some (''mark'', [5])]\<rparr>"
      and w' = "\<lparr>css_highlights = [(''mark'', \<lparr>members = [5], priority = 0\<rparr>)],
                  console = []\<rparr>"] h
  show ?thesis by blast
qed

text \<open>
  C9. \<^verbatim>\<open>add(name, range)\<close> returns \<^verbatim>\<open>true\<close> exactly when the registry does not own
  the range under the name and \<^verbatim>\<open>CSS.highlights\<close> does not hold it there. After it has
  returned \<^verbatim>\<open>true\<close>, a second \<^verbatim>\<open>add\<close> of the same range under the same name,
  whatever its priority and the shared world, returns \<^verbatim>\<open>false\<close> and changes nothing,
  and the range is once in the set of the name.
\<close>

theorem add_twice:
  "(fst (add name rng prio (reg, w)) = Inr True \<longleftrightarrow>
      \<not> has name rng reg \<and> rng \<notin> set (shared_ranges name w)) \<and>
   (add name rng prio (reg, w) = (Inr True, reg', w') \<longrightarrow>
      (\<forall>prio2 w2. add name rng prio2 (reg', w2) = (Inr False, reg', w2)) \<and>
      count_list (owned name reg') rng = 1)"
proof (intro conjI impI)
  show "fst (add name rng prio (reg, w)) = Inr True \<longleftrightarrow>
          \<not> has name rng reg \<and> rng \<notin> set (shared_ranges name w)"
    using add_fresh_returns_True [of name rng reg w prio]
      add_returns_True [of name rng prio reg w]
    by (cases "add name rng prio (reg, w)") auto
next
  assume a: "add name rng prio (reg, w) = (Inr True, reg', w')"
  from add_returns_True [OF a]
  have o: "owned name reg' = owned name reg @ [rng]" and n: "\<not> has name rng reg"
    by simp_all
  from o have "has name rng reg'"
    by (simp add: has_owned)
  then show "\<forall>prio2 w2. add name rng prio2 (reg', w2) = (Inr False, reg', w2)"
    by (simp add: add_owned_noop)
  from n have "count_list (owned name reg) rng = 0"
    by (simp add: has_owned count_list_0_iff)
  with o show "count_list (owned name reg') rng = 1"
    by simp
qed

theorem add_twice_witness:
  "add ''mark'' 5 0 (new_registry, \<lparr>css_highlights = [], console = []\<rparr>) =
     (Inr True,
      \<lparr>ranges = [Some (''mark'', [5])]\<rparr>,
      \<lparr>css_highlights = [(''mark'', \<lparr>members = [5], priority = 0\<rparr>)], console = []\<rparr>) \<and>
   add ''mark'' 5 2
     (\<lparr>ranges = [Some (''mark'', [5])]\<rparr>,
      \<lparr>css_highlights = [(''mark'', \<lparr>members = [5], priority = 0\<rparr>)], console = []\<rparr>) =
     (Inr False,
      \<lparr>ranges = [Some (''mark'', [5])]\<rparr>,
      \<lparr>css_highlights = [(''mark'', \<lparr>members = [5], priority = 0\<rparr>)], console = []\<rparr>) \<and>
   count_list (owned ''mark'' \<lparr>ranges = [Some (''mark'', [5])]\<rparr>) 5 = 1"
proof -
  have a: "add ''mark'' 5 0 (new_registry, \<lparr>css_highlights = [], console = []\<rparr>) =
     (Inr True,
      \<lparr>ranges = [Some (''mark'', [5])]\<rparr>,
      \<lparr>css_highlights = [(''mark'', \<lparr>members = [5], priority = 0\<rparr>)], console = []\<rparr>)"
    by code_simp
  from add_twice [where name = "''mark''" and rng = 5 and prio = 0 and reg = new_registry
      and w = "\<lparr>css_highlights = [], console = []\<rparr>"
      and reg' = "\<lparr>ranges = [Some (''mark'', [5])]\<rparr>"
      and w' = "\<lparr>css_highlights = [(''mark'', \<lparr>members = [5], priority = 0\<rparr>)],
                  console = []\<rparr>"] a
  show ?thesis by blast
qed

text \<open>
  C7. \<^verbatim>\<open>delete(name, range)\<close> on a range the registry does not own under the name
  returns \<^verbatim>\<open>false\<close> and leaves the ledger and the shared world as they were. On a
  range it owns, it returns \<^verbatim>\<open>true\<close> and leaves the same ledger whatever the shared
  world holds; the range is gone from the set of the name, the name is a key afterwards
  exactly when ranges remain in its set, and the other names keep their sets.
\<close>

theorem delete_owned_or_not:
  "(\<not> has name rng reg \<longrightarrow> delete name rng (reg, w) = (False, reg, w)) \<and>
   (has name rng reg \<longrightarrow>
      (\<forall>w2. fst (delete name rng (reg, w2)) = True \<and>
            fst (snd (delete name rng (reg, w2))) = fst (snd (delete name rng (reg, w)))) \<and>
      owned name (fst (snd (delete name rng (reg, w)))) = removeAll rng (owned name reg) \<and>
      (name \<in> set (jsmap_keys (ranges (fst (snd (delete name rng (reg, w))))))
         \<longleftrightarrow> removeAll rng (owned name reg) \<noteq> []) \<and>
      (\<forall>n. n \<noteq> name \<longrightarrow>
         jsmap_get (ranges (fst (snd (delete name rng (reg, w))))) n = jsmap_get (ranges reg) n))"
proof (intro conjI impI allI)
  assume "\<not> has name rng reg"
  then show "delete name rng (reg, w) = (False, reg, w)" by (rule delete_not_owned)
next
  fix w2 assume "has name rng reg"
  then show "fst (delete name rng (reg, w2)) = True" by (simp add: delete_returns)
next
  fix w2 assume "has name rng reg"
  then show "fst (snd (delete name rng (reg, w2))) = fst (snd (delete name rng (reg, w)))"
    by (simp add: delete_def has_def Let_def split: option.splits)
next
  assume h: "has name rng reg"
  show "owned name (fst (snd (delete name rng (reg, w)))) = removeAll rng (owned name reg)"
    unfolding owned_def [of name "fst (snd (delete name rng (reg, w)))"] delete_ledger [OF h]
    by simp
next
  assume h: "has name rng reg"
  have "name \<in> set (jsmap_keys (ranges (fst (snd (delete name rng (reg, w)))))) \<longleftrightarrow>
        jsmap_get (ranges (fst (snd (delete name rng (reg, w))))) name \<noteq> None"
    by (simp add: jsmap_get_None_iff)
  then show "name \<in> set (jsmap_keys (ranges (fst (snd (delete name rng (reg, w))))))
         \<longleftrightarrow> removeAll rng (owned name reg) \<noteq> []"
    unfolding delete_ledger [OF h] by simp
next
  fix n assume h: "has name rng reg" and "n \<noteq> name"
  then show "jsmap_get (ranges (fst (snd (delete name rng (reg, w))))) n = jsmap_get (ranges reg) n"
    by (simp add: delete_ledger)
qed

theorem delete_owned_or_not_witness:
  "\<not> has ''mark'' 6 \<lparr>ranges = [Some (''mark'', [5])]\<rparr> \<and>
   delete ''mark'' 6
     (\<lparr>ranges = [Some (''mark'', [5])]\<rparr>,
      \<lparr>css_highlights = [(''mark'', \<lparr>members = [5, 6], priority = 0\<rparr>)], console = []\<rparr>) =
     (False,
      \<lparr>ranges = [Some (''mark'', [5])]\<rparr>,
      \<lparr>css_highlights = [(''mark'', \<lparr>members = [5, 6], priority = 0\<rparr>)], console = []\<rparr>) \<and>
   has ''mark'' 5 \<lparr>ranges = [Some (''mark'', [5])]\<rparr> \<and>
   fst (delete ''mark'' 5
     (\<lparr>ranges = [Some (''mark'', [5])]\<rparr>, \<lparr>css_highlights = [], console = []\<rparr>)) = True \<and>
   owned ''mark''
     (fst (snd (delete ''mark'' 5
        (\<lparr>ranges = [Some (''mark'', [5])]\<rparr>,
         \<lparr>css_highlights = [(''mark'', \<lparr>members = [5, 6], priority = 0\<rparr>)],
            console = []\<rparr>)))) = [] \<and>
   ''mark'' \<notin> set (jsmap_keys (ranges
     (fst (snd (delete ''mark'' 5
        (\<lparr>ranges = [Some (''mark'', [5])]\<rparr>,
         \<lparr>css_highlights = [(''mark'', \<lparr>members = [5, 6], priority = 0\<rparr>)],
            console = []\<rparr>))))))"
proof -
  have h1: "\<not> has ''mark'' 6 \<lparr>ranges = [Some (''mark'', [5])]\<rparr>"
    by code_simp
  have h2: "has ''mark'' 5 \<lparr>ranges = [Some (''mark'', [5])]\<rparr>"
    by code_simp
  have o: "removeAll 5 (owned ''mark'' \<lparr>ranges = [Some (''mark'', [5])]\<rparr>) = []"
    by code_simp
  from delete_owned_or_not [where name = "''mark''" and rng = 6
      and reg = "\<lparr>ranges = [Some (''mark'', [5])]\<rparr>"
      and w = "\<lparr>css_highlights = [(''mark'', \<lparr>members = [5, 6], priority = 0\<rparr>)],
                 console = []\<rparr>"]
    delete_owned_or_not [where name = "''mark''" and rng = 5
      and reg = "\<lparr>ranges = [Some (''mark'', [5])]\<rparr>"
      and w = "\<lparr>css_highlights = [(''mark'', \<lparr>members = [5, 6], priority = 0\<rparr>)],
                 console = []\<rparr>"]
    h1 h2 o
  show ?thesis by simp
qed

section \<open>deleteAll\<close>

text \<open>
  C5. A first registry adds range 5 under a name. A second, new registry adds the same
  range under the same name: the call throws and leaves the name in its ledger as a key
  with an empty set. The second registry owns no range under the name, and
  \<^verbatim>\<open>deleteAll(name)\<close> on it returns \<^verbatim>\<open>true\<close>: it removes the key, removes no range and
  leaves the shared world as it was.
\<close>

theorem deleteAll_true_without_ranges:
  "exec (Add ''mark'' 5 0) (new_registry, \<lparr>css_highlights = [], console = []\<rparr>) =
     (Inr (Bool True),
      \<lparr>ranges = [Some (''mark'', [5])]\<rparr>,
      \<lparr>css_highlights = [(''mark'', \<lparr>members = [5], priority = 0\<rparr>)], console = []\<rparr>) \<and>
   exec (Add ''mark'' 5 0)
     (new_registry,
      \<lparr>css_highlights = [(''mark'', \<lparr>members = [5], priority = 0\<rparr>)], console = []\<rparr>) =
     (Inl RangeAlreadyRegistered,
      \<lparr>ranges = [Some (''mark'', [])]\<rparr>,
      \<lparr>css_highlights = [(''mark'', \<lparr>members = [5], priority = 0\<rparr>)], console = []\<rparr>) \<and>
   owned ''mark'' \<lparr>ranges = [Some (''mark'', [])]\<rparr> = [] \<and>
   \<not> has ''mark'' 5 \<lparr>ranges = [Some (''mark'', [])]\<rparr> \<and>
   exec (DeleteAll ''mark'')
     (\<lparr>ranges = [Some (''mark'', [])]\<rparr>,
      \<lparr>css_highlights = [(''mark'', \<lparr>members = [5], priority = 0\<rparr>)], console = []\<rparr>) =
     (Inr (Bool True),
      \<lparr>ranges = [None]\<rparr>,
      \<lparr>css_highlights = [(''mark'', \<lparr>members = [5], priority = 0\<rparr>)], console = []\<rparr>)"
  by code_simp

text \<open>
  C2. The registry owns ranges 5 and 6 under a name, added in this order, and the
  highlight of the name holds only 6: the removal of 5 does not find it, that of 6
  does, and \<^verbatim>\<open>deleteAll\<close> warns nothing, since \<^verbatim>\<open>warn\<close> keeps the outcome of the
  last removal only. With the ranges in the other order the last removal is the one that
  fails, and the warning is made.
\<close>

theorem deleteAll_warns_for_last_only:
  "5 \<notin> set (shared_ranges ''mark''
      \<lparr>css_highlights = [(''mark'', \<lparr>members = [6], priority = 0\<rparr>)], console = []\<rparr>) \<and>
   deleteAll ''mark''
     (\<lparr>ranges = [Some (''mark'', [5, 6])]\<rparr>,
      \<lparr>css_highlights = [(''mark'', \<lparr>members = [6], priority = 0\<rparr>)], console = []\<rparr>) =
     (True,
      \<lparr>ranges = [None]\<rparr>,
      \<lparr>css_highlights = [(''mark'', \<lparr>members = [], priority = 0\<rparr>)], console = []\<rparr>) \<and>
   deleteAll ''mark''
     (\<lparr>ranges = [Some (''mark'', [6, 5])]\<rparr>,
      \<lparr>css_highlights = [(''mark'', \<lparr>members = [6], priority = 0\<rparr>)], console = []\<rparr>) =
     (True,
      \<lparr>ranges = [None]\<rparr>,
      \<lparr>css_highlights = [(''mark'', \<lparr>members = [], priority = 0\<rparr>)],
         console = [OwnedDeletedElsewhere ''mark'']\<rparr>)"
  by code_simp

section \<open>Two registries\<close>

text \<open>
  C4. Registries \<open>a\<close> and \<open>b\<close> share \<^verbatim>\<open>CSS.highlights\<close>; \<open>a\<close> owns \<open>S1\<close> under a
  name, \<open>b\<close> owns another range \<open>S2\<close> under it and does not own \<open>S1\<close>. Then
  \<^verbatim>\<open>deleteAll(name)\<close> on \<open>b\<close> returns \<^verbatim>\<open>true\<close>, \<open>S2\<close> is not in the highlight of the
  name afterwards, \<open>S1\<close> is in it exactly if it was before, the ledger of \<open>a\<close> is
  the same, so \<^verbatim>\<open>has(name, S1)\<close> on \<open>a\<close> is still true, and \<^verbatim>\<open>has(name, S2)\<close> on \<open>b\<close>
  is false. No call on one registry changes the ledger of the other, which is all that
  \<^verbatim>\<open>has\<close> reads.
\<close>

theorem deleteAll_isolation:
  assumes "a \<noteq> b" and "S1 \<noteq> S2"
      and "has name S1 (regs a)" and "has name S2 (regs b)" and "\<not> has name S1 (regs b)"
  shows "\<exists>regs' w'.
           on_instance b (DeleteAll name) (regs, w) = (Inr (Bool True), regs', w') \<and>
           S2 \<notin> set (shared_ranges name w') \<and>
           (S1 \<in> set (shared_ranges name w') \<longleftrightarrow> S1 \<in> set (shared_ranges name w)) \<and>
           regs' a = regs a \<and> has name S1 (regs' a) \<and> \<not> has name S2 (regs' b) \<and>
           (\<forall>c. fst (snd (on_instance b c (regs, w))) a = regs a) \<and>
           (\<forall>c. fst (snd (on_instance a c (regs, w))) b = regs b)"
proof -
  obtain r reg' w' where d: "deleteAll name (regs b, w) = (r, reg', w')"
    by (cases "deleteAll name (regs b, w)")
  from assms(4) have key: "name \<in> set (jsmap_keys (ranges (regs b)))"
    by (auto simp: has_def jsmap_keys_iff split: option.splits)
  with d deleteAll_returns [of name "regs b" w] have r: "r = True"
    by simp
  from d deleteAll_shared [of name name "regs b" w]
  have sh: "shared_ranges name w' =
              filter (\<lambda>r. r \<notin> set (owned name (regs b))) (shared_ranges name w)"
    by simp
  from d deleteAll_step_keys [of name "(regs b, w)"]
  have "name \<notin> set (jsmap_keys (ranges reg'))"
    by simp
  then have gone: "\<not> has name S2 reg'"
    by (simp add: has_def jsmap_get_None_iff [THEN iffD2])
  have run: "on_instance b (DeleteAll name) (regs, w) = (Inr (Bool True), regs(b := reg'), w')"
    using d r by (simp add: on_instance_def)
  from sh assms(4) have "S2 \<notin> set (shared_ranges name w')"
    by (simp add: has_owned)
  moreover from sh assms(5)
  have "S1 \<in> set (shared_ranges name w') \<longleftrightarrow> S1 \<in> set (shared_ranges name w)"
    by (simp add: has_owned)
  moreover from assms(1) have "(regs(b := reg')) a = regs a"
    by simp
  moreover from assms(1,3) have "has name S1 ((regs(b := reg')) a)"
    by simp
  moreover from gone have "\<not> has name S2 ((regs(b := reg')) b)"
    by simp
  moreover from assms(1) have "\<forall>c. fst (snd (on_instance b c (regs, w))) a = regs a"
    by (simp add: on_instance_other)
  moreover from assms(1) have "\<forall>c. fst (snd (on_instance a c (regs, w))) b = regs b"
    by (simp add: on_instance_other)
  ultimately show ?thesis
    using run by blast
qed

theorem deleteAll_isolation_witness:
  "exec (Add ''hello-world'' 10 0) (new_registry, \<lparr>css_highlights = [], console = []\<rparr>) =
     (Inr (Bool True),
      \<lparr>ranges = [Some (''hello-world'', [10])]\<rparr>,
      \<lparr>css_highlights = [(''hello-world'', \<lparr>members = [10], priority = 0\<rparr>)],
         console = []\<rparr>) \<and>
   exec (Add ''hello-world'' 20 0)
     (new_registry,
      \<lparr>css_highlights = [(''hello-world'', \<lparr>members = [10], priority = 0\<rparr>)],
         console = []\<rparr>) =
     (Inr (Bool True),
      \<lparr>ranges = [Some (''hello-world'', [20])]\<rparr>,
      \<lparr>css_highlights = [(''hello-world'', \<lparr>members = [10, 20], priority = 0\<rparr>)],
         console = []\<rparr>) \<and>
   has ''hello-world'' 10 \<lparr>ranges = [Some (''hello-world'', [10])]\<rparr> \<and>
   has ''hello-world'' 20 \<lparr>ranges = [Some (''hello-world'', [20])]\<rparr> \<and>
   \<not> has ''hello-world'' 10 \<lparr>ranges = [Some (''hello-world'', [20])]\<rparr> \<and>
   fst (on_instance 2 (DeleteAll ''hello-world'')
     (\<lambda>i::nat. if i = 2 then \<lparr>ranges = [Some (''hello-world'', [20])]\<rparr>
           else \<lparr>ranges = [Some (''hello-world'', [10])]\<rparr>,
      \<lparr>css_highlights = [(''hello-world'', \<lparr>members = [10, 20], priority = 0\<rparr>)],
         console = []\<rparr>)) = Inr (Bool True) \<and>
   shared_ranges ''hello-world'' (snd (snd (on_instance 2 (DeleteAll ''hello-world'')
     (\<lambda>i::nat. if i = 2 then \<lparr>ranges = [Some (''hello-world'', [20])]\<rparr>
           else \<lparr>ranges = [Some (''hello-world'', [10])]\<rparr>,
      \<lparr>css_highlights = [(''hello-world'', \<lparr>members = [10, 20], priority = 0\<rparr>)],
         console = []\<rparr>)))) = [10] \<and>
   has ''hello-world'' 10 (fst (snd (on_instance 2 (DeleteAll ''hello-world'')
     (\<lambda>i::nat. if i = 2 then \<lparr>ranges = [Some (''hello-world'', [20])]\<rparr>
           else \<lparr>ranges = [Some (''hello-world'', [10])]\<rparr>,
      \<lparr>css_highlights = [(''hello-world'', \<lparr>members = [10, 20], priority = 0\<rparr>)],
         console = []\<rparr>))) 1)"
proof -
  let ?A = "\<lparr>ranges = [Some (''hello-world'', [10])]\<rparr>"
  let ?B = "\<lparr>ranges = [Some (''hello-world'', [20])]\<rparr>"
  let ?regs = "\<lambda>i::nat. if i = 2 then ?B else ?A"
  let ?w = "\<lparr>css_highlights = [(''hello-world'', \<lparr>members = [10, 20], priority = 0\<rparr>)],
              console = []\<rparr>"
  have a1: "exec (Add ''hello-world'' 10 0) (new_registry, \<lparr>css_highlights = [], console = []\<rparr>) =
     (Inr (Bool True), ?A,
      \<lparr>css_highlights = [(''hello-world'', \<lparr>members = [10], priority = 0\<rparr>)],
         console = []\<rparr>)"
    by code_simp
  have a2: "exec (Add ''hello-world'' 20 0)
     (new_registry,
      \<lparr>css_highlights = [(''hello-world'', \<lparr>members = [10], priority = 0\<rparr>)],
         console = []\<rparr>) = (Inr (Bool True), ?B, ?w)"
    by code_simp
  have h1: "has ''hello-world'' 10 (?regs 1)" by code_simp
  have h2: "has ''hello-world'' 20 (?regs 2)" by code_simp
  have h3: "\<not> has ''hello-world'' 10 (?regs 2)" by code_simp
  have sh: "shared_ranges ''hello-world'' (snd (snd (on_instance 2 (DeleteAll ''hello-world'')
              (?regs, ?w)))) = [10]"
    by (simp add: on_instance_def deleteAll_def jsmap_get_def shared_ranges_def
        jsset_delete_def)
  from deleteAll_isolation [of 1 2 10 20 "''hello-world''" ?regs ?w, OF _ _ h1 h2 h3]
  obtain regs' w' where
    "on_instance 2 (DeleteAll ''hello-world'') (?regs, ?w) = (Inr (Bool True), regs', w')"
    "has ''hello-world'' 10 (regs' 1)"
    by auto
  with a1 a2 h1 h2 h3 sh show ?thesis
    by simp
qed

text \<open>
  C4, without the hypothesis that \<open>b\<close> does not own \<open>S1\<close>: the range of \<open>a\<close> is removed.
  Registry 2 adds range 10; the range is then removed from the highlight by other code;
  registry 1 adds range 10, which \<^verbatim>\<open>CSS.highlights\<close> no longer holds, and registry 2
  adds range 20. Registry 1 owns 10, registry 2 owns 20 and, still, 10:
  \<^verbatim>\<open>deleteAll\<close> on registry 2 removes both from the highlight.
\<close>

theorem deleteAll_isolation_counterexample:
  "exec (Add ''hello-world'' 10 0) (new_registry, \<lparr>css_highlights = [], console = []\<rparr>) =
     (Inr (Bool True),
      \<lparr>ranges = [Some (''hello-world'', [10])]\<rparr>,
      \<lparr>css_highlights = [(''hello-world'', \<lparr>members = [10], priority = 0\<rparr>)],
         console = []\<rparr>) \<and>
   exec (Add ''hello-world'' 10 0)
     (new_registry,
      \<lparr>css_highlights = [(''hello-world'', \<lparr>members = [], priority = 0\<rparr>)],
         console = []\<rparr>) =
     (Inr (Bool True),
      \<lparr>ranges = [Some (''hello-world'', [10])]\<rparr>,
      \<lparr>css_highlights = [(''hello-world'', \<lparr>members = [10], priority = 0\<rparr>)],
         console = []\<rparr>) \<and>
   exec (Add ''hello-world'' 20 0)
     (\<lparr>ranges = [Some (''hello-world'', [10])]\<rparr>,
      \<lparr>css_highlights = [(''hello-world'', \<lparr>members = [10], priority = 0\<rparr>)],
         console = []\<rparr>) =
     (Inr (Bool True),
      \<lparr>ranges = [Some (''hello-world'', [10, 20])]\<rparr>,
      \<lparr>css_highlights = [(''hello-world'', \<lparr>members = [10, 20], priority = 0\<rparr>)],
         console = []\<rparr>) \<and>
   has ''hello-world'' 10 \<lparr>ranges = [Some (''hello-world'', [10])]\<rparr> \<and>
   has ''hello-world'' 20 \<lparr>ranges = [Some (''hello-world'', [10, 20])]\<rparr> \<and>
   on_instance (2::nat) (DeleteAll ''hello-world'')
     (\<lambda>i. if i = 2 then \<lparr>ranges = [Some (''hello-world'', [10, 20])]\<rparr>
           else \<lparr>ranges = [Some (''hello-world'', [10])]\<rparr>,
      \<lparr>css_highlights = [(''hello-world'', \<lparr>members = [10, 20], priority = 0\<rparr>)],
         console = []\<rparr>) =
     (Inr (Bool True),
      (\<lambda>i. if i = 2 then \<lparr>ranges = [Some (''hello-world'', [10, 20])]\<rparr>
           else \<lparr>ranges = [Some (''hello-world'', [10])]\<rparr>)(2 := \<lparr>ranges = [None]\<rparr>),
      \<lparr>css_highlights = [(''hello-world'', \<lparr>members = [], priority = 0\<rparr>)],
         console = []\<rparr>) \<and>
   10 \<notin> set (shared_ranges ''hello-world''
      \<lparr>css_highlights = [(''hello-world'', \<lparr>members = [], priority = 0\<rparr>)],
         console = []\<rparr>)"
proof -
  have d: "deleteAll ''hello-world''
     (\<lparr>ranges = [Some (''hello-world'', [10, 20])]\<rparr>,
      \<lparr>css_highlights = [(''hello-world'', \<lparr>members = [10, 20], priority = 0\<rparr>)],
         console = []\<rparr>) =
     (True, \<lparr>ranges = [None]\<rparr>,
      \<lparr>css_highlights = [(''hello-world'', \<lparr>members = [], priority = 0\<rparr>)],
         console = []\<rparr>)"
    by code_simp
  have "exec (Add ''hello-world'' 10 0) (new_registry, \<lparr>css_highlights = [], console = []\<rparr>) =
     (Inr (Bool True),
      \<lparr>ranges = [Some (''hello-world'', [10])]\<rparr>,
      \<lparr>css_highlights = [(''hello-world'', \<lparr>members = [10], priority = 0\<rparr>)],
         console = []\<rparr>)"
    by code_simp
  moreover have "exec (Add ''hello-world'' 10 0)
     (new_registry,
      \<lparr>css_highlights = [(''hello-world'', \<lparr>members = [], priority = 0\<rparr>)],
         console = []\<rparr>) =
     (Inr (Bool True),
      \<lparr>ranges = [Some (''hello-world'', [10])]\<rparr>,
      \<lparr>css_highlights = [(''hello-world'', \<lparr>members = [10], priority = 0\<rparr>)],
         console = []\<rparr>)"
    by code_simp
  moreover have "exec (Add ''hello-world'' 20 0)
     (\<lparr>ranges = [Some (''hello-world'', [10])]\<rparr>,
      \<lparr>css_highlights = [(''hello-world'', \<lparr>members = [10], priority = 0\<rparr>)],
         console = []\<rparr>) =
     (Inr (Bool True),
      \<lparr>ranges = [Some (''hello-world'', [10, 20])]\<rparr>,
      \<lparr>css_highlights = [(''hello-world'', \<lparr>members = [10, 20], priority = 0\<rparr>)],
         console = []\<rparr>)"
    by code_simp
  moreover have "has ''hello-world'' 10 \<lparr>ranges = [Some (''hello-world'', [10])]\<rparr>"
    by code_simp
  moreover have "has ''hello-world'' 20 \<lparr>ranges = [Some (''hello-world'', [10, 20])]\<rparr>"
    by code_simp
  moreover have "10 \<notin> set (shared_ranges ''hello-world''
      \<lparr>css_highlights = [(''hello-world'', \<lparr>members = [], priority = 0\<rparr>)],
         console = []\<rparr>)"
    by code_simp
  ultimately show ?thesis
    by (simp add: on_instance_def d)
qed

section \<open>clear\<close>

text \<open>
  C6. \<^verbatim>\<open>clear\<close>, which walks the live keys of the ledger, does what the walk over
  the names read before the first \<^verbatim>\<open>deleteAll\<close> does: \<^verbatim>\<open>deleteAll\<close> for each name
  that was a key, in order. Afterwards the ledger has no key, and \<^verbatim>\<open>has\<close> is false for
  every name and range.
\<close>

theorem clear_walks_snapshot:
  "clear (reg, w) = clear_snapshot (reg, w) \<and>
   jsmap_keys (ranges (fst (clear (reg, w)))) = [] \<and>
   (\<forall>name rng. \<not> has name rng (fst (clear (reg, w))))"
proof -
  have eq: "clear (reg, w) = clear_snapshot (reg, w)"
    by (simp add: clear_def clear_snapshot_def clear_loop_fold)
  have keys: "jsmap_keys (ranges (fst (clear (reg, w)))) = []"
    unfolding eq clear_snapshot_def fold_deleteAll_keys by simp
  have "\<not> has name rng (fst (clear (reg, w)))" for name rng
    using keys by (simp add: has_def jsmap_get_None_iff [THEN iffD2])
  with eq keys show ?thesis by blast
qed

section \<open>The invariant of the ledger\<close>

text \<open>
  C1. On a new registry, \<^verbatim>\<open>add\<close> of a range that \<^verbatim>\<open>CSS.highlights\<close> already holds
  under the name throws, and the ledger it leaves has the name as a key with an empty
  set: the invariant held before the call and does not hold after it.
\<close>

theorem add_raise_breaks_ledger_inv:
  "ledger_inv new_registry \<and>
   exec (Add ''mark'' 5 0)
     (new_registry,
      \<lparr>css_highlights = [(''mark'', \<lparr>members = [5], priority = 0\<rparr>)], console = []\<rparr>) =
     (Inl RangeAlreadyRegistered,
      \<lparr>ranges = [Some (''mark'', [])]\<rparr>,
      \<lparr>css_highlights = [(''mark'', \<lparr>members = [5], priority = 0\<rparr>)], console = []\<rparr>) \<and>
   \<not> ledger_inv \<lparr>ranges = [Some (''mark'', [])]\<rparr> \<and>
   jsmap_get (ranges \<lparr>ranges = [Some (''mark'', [])]\<rparr>) ''mark'' = Some []"
  by code_simp

end
